theory Spec2Isabelle
  imports Main
begin

section \<open>JavaScript strings\<close>

text \<open>
  The program is TypeScript (\<^verbatim>\<open>src/utils/apicParser.ts\<close>, \<^verbatim>\<open>src/App.tsx\<close>). A
  JavaScript string is a sequence of UTF-16 code units; the model uses \<^typ>\<open>string\<close>,
  whose characters are the code units below 256 (ASCII and Latin-1). Every literal and
  every pattern of the program is ASCII. White space, case mapping and word characters
  are written out for the whole range of \<^typ>\<open>char\<close>.
\<close>

definition isWhiteSpace :: "char \<Rightarrow> bool" where
  \<comment> \<open>WhiteSpace and LineTerminator of ECMAScript: what \<^verbatim>\<open>trim\<close> strips and \<^verbatim>\<open>\s\<close> matches\<close>
  "isWhiteSpace c = (c \<in> set [CHR 0x09, CHR 0x0A, CHR 0x0B, CHR 0x0C, CHR 0x0D, CHR 0x20, CHR 0xA0])"

definition isDigit :: "char \<Rightarrow> bool" where
  "isDigit c = (c \<in> set ''0123456789'')"

definition isWordChar :: "char \<Rightarrow> bool" where
  "isWordChar c =
     (c \<in> set ''abcdefghijklmnopqrstuvwxyzABCDEFGHIJKLMNOPQRSTUVWXYZ0123456789_'')"

definition isUpper :: "char \<Rightarrow> bool" where
  \<comment> \<open>the code units below 256 that \<^verbatim>\<open>toLowerCase\<close> changes: A-Z, and U+00C0-U+00DE but U+00D7\<close>
  "isUpper c = (let n = (of_char c :: nat)
     in (65 \<le> n \<and> n \<le> 90) \<or> (192 \<le> n \<and> n \<le> 222 \<and> n \<noteq> 215))"

definition isLower :: "char \<Rightarrow> bool" where
  \<comment> \<open>the code units below 256 that the canonicalisation of an \<^verbatim>\<open>/i\<close> pattern changes:
      a-z, and U+00E0-U+00FE but U+00F7 (the upper case of U+00B5, U+00DF and U+00FF is not a
      single code unit below 256, and no other code unit below 256 maps to it)\<close>
  "isLower c = (let n = (of_char c :: nat)
     in (97 \<le> n \<and> n \<le> 122) \<or> (224 \<le> n \<and> n \<le> 254 \<and> n \<noteq> 247))"

definition toLowerChar :: "char \<Rightarrow> char" where
  "toLowerChar c = (if isUpper c then char_of (of_char c + (32::nat)) else c)"

definition canonicalize :: "char \<Rightarrow> char" where
  "canonicalize c = (if isLower c then char_of (of_char c - (32::nat)) else c)"

definition toLowerCase :: "string \<Rightarrow> string" where
  "toLowerCase s = map toLowerChar s"

definition js_trim :: "string \<Rightarrow> string" where
  "js_trim s = rev (dropWhile isWhiteSpace (rev (dropWhile isWhiteSpace s)))"

fun startsWith :: "string \<Rightarrow> string \<Rightarrow> bool" where
  "startsWith s [] = True"
| "startsWith [] (p # ps) = False"
| "startsWith (c # cs) (p # ps) = (c = p \<and> startsWith cs ps)"

fun js_includes :: "string \<Rightarrow> string \<Rightarrow> bool" where
  \<comment> \<open>\<^verbatim>\<open>s.includes(sub)\<close>: the substring test, case-sensitive\<close>
  "js_includes [] sub = (sub = [])"
| "js_includes (c # cs) sub = (startsWith (c # cs) sub \<or> js_includes cs sub)"

fun split_acc :: "char \<Rightarrow> string \<Rightarrow> string \<Rightarrow> string list" where
  "split_acc sep cur [] = [rev cur]"
| "split_acc sep cur (c # cs) =
     (if c = sep then rev cur # split_acc sep [] cs else split_acc sep (c # cur) cs)"

definition split_nl :: "string \<Rightarrow> string list" where
  \<comment> \<open>\<^verbatim>\<open>s.split('\n')\<close>: the empty string gives one empty line\<close>
  "split_nl s = split_acc (CHR 0x0A) [] s"

fun join_nl :: "string list \<Rightarrow> string" where
  \<comment> \<open>\<^verbatim>\<open>rows.join('\n')\<close>\<close>
  "join_nl [] = []"
| "join_nl [r] = r"
| "join_nl (r # r' # rs) = r @ CHR 0x0A # join_nl (r' # rs)"

section \<open>Regular expressions\<close>

text \<open>
  The patterns of the program use literals, character classes, \<^verbatim>\<open>.\<close>, greedy
  quantifiers on single-character atoms, capturing groups that are neither nested nor
  quantified, \<^verbatim>\<open>\b\<close> and \<^verbatim>\<open>^\<close>. The matcher is the backtracking matcher
  of ECMAScript for this fragment, as a list of successes in the order in which backtracking
  tries them; the first success is the match.
\<close>

datatype cls_item = Ch char | Digit | Space

datatype cls =
    Any                            \<comment> \<open>\<^verbatim>\<open>.\<close>: every code unit but a line terminator\<close>
  | OneOf "cls_item list"          \<comment> \<open>\<^verbatim>\<open>[...]\<close>, \<^verbatim>\<open>\d\<close>, \<^verbatim>\<open>\s\<close>\<close>
  | NoneOf "cls_item list"         \<comment> \<open>\<^verbatim>\<open>[^...]\<close>\<close>

datatype rx =
    Lit string                     \<comment> \<open>a run of literal characters\<close>
  | Rep cls nat "nat option"       \<comment> \<open>greedy repetition of a class: at least, at most\<close>
  | Grp nat rx                     \<comment> \<open>capturing group number n\<close>
  | Seq "rx list"
  | WordB                          \<comment> \<open>\<^verbatim>\<open>\b\<close>\<close>
  | Bol                            \<comment> \<open>\<^verbatim>\<open>^\<close> without the multiline flag\<close>

definition char_eq :: "bool \<Rightarrow> char \<Rightarrow> char \<Rightarrow> bool" where
  "char_eq ic a c = (if ic then canonicalize a = canonicalize c else a = c)"

fun in_item :: "bool \<Rightarrow> cls_item \<Rightarrow> char \<Rightarrow> bool" where
  "in_item ic (Ch a) c = char_eq ic a c"
| "in_item ic Digit c = isDigit c"
| "in_item ic Space c = isWhiteSpace c"

fun in_cls :: "bool \<Rightarrow> cls \<Rightarrow> char \<Rightarrow> bool" where
  "in_cls ic Any c = (c \<noteq> CHR 0x0A \<and> c \<noteq> CHR 0x0D)"
| "in_cls ic (OneOf items) c = list_ex (\<lambda>i. in_item ic i c) items"
| "in_cls ic (NoneOf items) c = (\<not> list_ex (\<lambda>i. in_item ic i c) items)"

type_synonym captures = "nat \<rightharpoonup> string"

text \<open>A matcher state: the character before the position (None at the start of the
  input), the input from the position on, and the captures so far.\<close>

type_synonym mstate = "char option \<times> string \<times> captures"

fun lit_match :: "bool \<Rightarrow> string \<Rightarrow> char option \<Rightarrow> string \<Rightarrow> (string \<times> char option \<times> string) option" where
  "lit_match ic [] prev rest = Some ([], prev, rest)"
| "lit_match ic (p # ps) prev [] = None"
| "lit_match ic (p # ps) prev (c # cs) =
     (if char_eq ic p c
      then (case lit_match ic ps (Some c) cs of
              None \<Rightarrow> None
            | Some (t, prev', rest') \<Rightarrow> Some (c # t, prev', rest'))
      else None)"

fun rep_match :: "bool \<Rightarrow> cls \<Rightarrow> nat \<Rightarrow> nat option \<Rightarrow> char option \<Rightarrow> string
    \<Rightarrow> (string \<times> char option \<times> string) list" where
  \<comment> \<open>greedy: one more character first, then stopping here when the minimum is reached\<close>
  "rep_match ic cl lo hi prev [] = (if lo = 0 then [([], prev, [])] else [])"
| "rep_match ic cl lo hi prev (c # cs) =
     (if hi \<noteq> Some 0 \<and> in_cls ic cl c
      then map (\<lambda>(t, prev', rest'). (c # t, prev', rest'))
             (rep_match ic cl (lo - 1) (map_option (\<lambda>h. h - 1) hi) (Some c) cs)
      else [])
     @ (if lo = 0 then [([], prev, c # cs)] else [])"

definition at_word_boundary :: "char option \<Rightarrow> string \<Rightarrow> bool" where
  "at_word_boundary prev rest =
     ((case prev of None \<Rightarrow> False | Some a \<Rightarrow> isWordChar a)
      \<noteq> (case rest of [] \<Rightarrow> False | b # _ \<Rightarrow> isWordChar b))"

fun rmatch :: "bool \<Rightarrow> rx \<Rightarrow> mstate \<Rightarrow> (string \<times> mstate) list" where
  "rmatch ic (Lit ps) (prev, rest, caps) =
     (case lit_match ic ps prev rest of
        None \<Rightarrow> []
      | Some (t, prev', rest') \<Rightarrow> [(t, prev', rest', caps)])"
| "rmatch ic (Rep cl lo hi) (prev, rest, caps) =
     map (\<lambda>(t, prev', rest'). (t, prev', rest', caps)) (rep_match ic cl lo hi prev rest)"
| "rmatch ic (Grp n r) st =
     map (\<lambda>(t, prev', rest', caps'). (t, prev', rest', caps'(n \<mapsto> t))) (rmatch ic r st)"
| "rmatch ic (Seq []) st = [([], st)]"
| "rmatch ic (Seq (r # rs)) st =
     concat (map (\<lambda>(t1, st1). map (\<lambda>(t2, st2). (t1 @ t2, st2)) (rmatch ic (Seq rs) st1))
                 (rmatch ic r st))"
| "rmatch ic WordB (prev, rest, caps) =
     (if at_word_boundary prev rest then [([], prev, rest, caps)] else [])"
| "rmatch ic Bol (prev, rest, caps) =
     (if prev = None then [([], prev, rest, caps)] else [])"

text \<open>\<^verbatim>\<open>s.match(re)\<close> for a pattern without the global flag: the leftmost start with a
  success, and there the first success. Index 0 of the result is the matched text, index n
  the text of group n.\<close>

fun rx_search :: "bool \<Rightarrow> rx \<Rightarrow> char option \<Rightarrow> string \<Rightarrow> captures option" where
  "rx_search ic r prev rest =
     (case rmatch ic r (prev, rest, Map.empty) of
        (t, prev', rest', caps) # _ \<Rightarrow> Some (caps(0 \<mapsto> t))
      | [] \<Rightarrow> (case rest of [] \<Rightarrow> None | c # cs \<Rightarrow> rx_search ic r (Some c) cs))"

record regex =
  pattern :: rx
  ignoreCase :: bool

definition js_match :: "string \<Rightarrow> regex \<Rightarrow> captures option" where
  "js_match s re = rx_search (ignoreCase re) (pattern re) None s"

definition capture :: "captures \<Rightarrow> nat \<Rightarrow> string" where
  \<comment> \<open>\<^verbatim>\<open>m[n]\<close>; a group that took no part in the match reads as undefined, which is falsy
      like the empty string. No group of this program is optional or quantified, so every
      group takes part in every match (lemma \<open>js_match_groups\<close>)\<close>
  "capture m n = (case m n of None \<Rightarrow> [] | Some t \<Rightarrow> t)"

fun rx_groups :: "rx \<Rightarrow> nat set" where
  \<comment> \<open>the numbers of the groups of a pattern\<close>
  "rx_groups (Grp n r) = insert n (rx_groups r)"
| "rx_groups (Seq rs) = (\<Union>r\<in>set rs. rx_groups r)"
| "rx_groups (Lit ps) = {}"
| "rx_groups (Rep cl lo hi) = {}"
| "rx_groups WordB = {}"
| "rx_groups Bol = {}"


text \<open>A \<^verbatim>\<open>Set\<close> of strings in insertion order, and a \<^verbatim>\<open>Map\<close> from strings in
  insertion order: setting a key that is present replaces its value in place.\<close>

definition set_add :: "string \<Rightarrow> string list \<Rightarrow> string list" where
  "set_add x xs = (if x \<in> set xs then xs else xs @ [x])"

fun map_set :: "string \<Rightarrow> 'v \<Rightarrow> (string \<times> 'v) list \<Rightarrow> (string \<times> 'v) list" where
  "map_set k v [] = [(k, v)]"
| "map_set k v ((k', v') # m) = (if k' = k then (k, v) # m else (k', v') # map_set k v m)"

definition map_get :: "(string \<times> 'v) list \<Rightarrow> string \<Rightarrow> 'v option" where
  "map_get m k = map_of m k"

definition map_has :: "(string \<times> 'v) list \<Rightarrow> string \<Rightarrow> bool" where
  "map_has m k = (map_of m k \<noteq> None)"

section \<open>The data model (apicParser.ts, lines 1-22)\<close>

record EndpointData =
  vlan :: string
  ip :: string
  paths :: "string list"
  pod :: string
  pathsWithNodes :: "(string \<times> string) list option"
  pathsWithIPs :: "(string \<times> string) list option"

record PathAttachment =
  vlan :: string
  epg :: string
  path :: string
  fullPath :: string
  pod :: string

datatype Status = allowed | not_allowed

record ValidationResult =
  path :: string
  hasActiveEndpoint :: bool
  isVlanAllowed :: bool
  status :: Status

section \<open>The patterns\<close>

definition cls_d :: cls where "cls_d = OneOf [Digit]"
definition cls_s :: cls where "cls_s = OneOf [Space]"
definition rx_plus :: "cls \<Rightarrow> rx" where "rx_plus cl = Rep cl 1 None"
definition rx_star :: "cls \<Rightarrow> rx" where "rx_star cl = Rep cl 0 None"

definition ip_re :: regex where
  \<comment> \<open>\<^verbatim>\<open>/\b(\d{1,3}\.\d{1,3}\.\d{1,3}\.\d{1,3})\b/\<close>\<close>
  "ip_re = \<lparr>pattern = Seq [WordB,
      Grp 1 (Seq [Rep cls_d 1 (Some 3), Lit ''.'', Rep cls_d 1 (Some 3), Lit ''.'',
                  Rep cls_d 1 (Some 3), Lit ''.'', Rep cls_d 1 (Some 3)]),
      WordB], ignoreCase = False\<rparr>"

definition vlan_re :: regex where
  \<comment> \<open>\<^verbatim>\<open>/vlan-(\d+)/i\<close>\<close>
  "vlan_re = \<lparr>pattern = Seq [Lit ''vlan-'', Grp 1 (rx_plus cls_d)], ignoreCase = True\<rparr>"

definition nodeInterface_re :: regex where
  \<comment> \<open>\<^verbatim>\<open>/(\d+)\s+(eth\d+\/\d+)\s+.*vlan-(\d+)/i\<close>\<close>
  "nodeInterface_re = \<lparr>pattern = Seq [Grp 1 (rx_plus cls_d), rx_plus cls_s,
      Grp 2 (Seq [Lit ''eth'', rx_plus cls_d, Lit ''/'', rx_plus cls_d]), rx_plus cls_s, rx_star Any,
      Lit ''vlan-'', Grp 3 (rx_plus cls_d)], ignoreCase = True\<rparr>"

definition vpcPatterns :: "regex list" where
  \<comment> \<open>\<^verbatim>\<open>/vpc\s+([\d-]+-VPC-[\d-]+-PG)/i\<close>,
      \<^verbatim>\<open>/\b([\d]+-[\d]+-VPC-[\d]+-[\d]+-PG)\b/i\<close>,
      \<^verbatim>\<open>/([\d]+-[\d]+-VPC-[\d]+-[\d]+-PG)/i\<close>\<close>
  "vpcPatterns =
    [\<lparr>pattern = Seq [Lit ''vpc'', rx_plus cls_s,
        Grp 1 (Seq [rx_plus (OneOf [Digit, Ch CHR ''-'']), Lit ''-VPC-'',
                    rx_plus (OneOf [Digit, Ch CHR ''-'']), Lit ''-PG''])], ignoreCase = True\<rparr>,
     \<lparr>pattern = Seq [WordB,
        Grp 1 (Seq [rx_plus cls_d, Lit ''-'', rx_plus cls_d, Lit ''-VPC-'', rx_plus cls_d, Lit ''-'', rx_plus cls_d,
                    Lit ''-PG'']),
        WordB], ignoreCase = True\<rparr>,
     \<lparr>pattern = Seq
        [Grp 1 (Seq [rx_plus cls_d, Lit ''-'', rx_plus cls_d, Lit ''-VPC-'', rx_plus cls_d, Lit ''-'', rx_plus cls_d,
                     Lit ''-PG''])], ignoreCase = True\<rparr>]"

definition dn_vpc_re :: regex where
  \<comment> \<open>\<^verbatim>\<open>/dn\s*:\s*uni\/tn-[^\/]+\/ap-[^\/]+\/epg-([^\/]+)\/rspathAtt-\[topology\/(pod-\d+)\/protpaths-([\d()X-]+)\/pathep-\[([^\]]+)\]\]/i\<close>\<close>
  "dn_vpc_re = \<lparr>pattern = Seq [Lit ''dn'', rx_star cls_s, Lit '':'', rx_star cls_s, Lit ''uni/tn-'',
      rx_plus (NoneOf [Ch CHR ''/'']), Lit ''/ap-'', rx_plus (NoneOf [Ch CHR ''/'']), Lit ''/epg-'',
      Grp 1 (rx_plus (NoneOf [Ch CHR ''/''])), Lit ''/rspathAtt-[topology/'',
      Grp 2 (Seq [Lit ''pod-'', rx_plus cls_d]), Lit ''/protpaths-'',
      Grp 3 (rx_plus (OneOf [Digit, Ch CHR ''('', Ch CHR '')'', Ch CHR ''X'', Ch CHR ''-''])),
      Lit ''/pathep-['', Grp 4 (rx_plus (NoneOf [Ch CHR '']''])), Lit '']]''], ignoreCase = True\<rparr>"

definition dn_single_re :: regex where
  \<comment> \<open>\<^verbatim>\<open>/dn\s*:\s*uni\/tn-[^\/]+\/ap-[^\/]+\/epg-([^\/]+)\/rspathAtt-\[topology\/(pod-\d+)\/paths-([\d()X]+)\/pathep-\[([^\]]+)\]\]/i\<close>\<close>
  "dn_single_re = \<lparr>pattern = Seq [Lit ''dn'', rx_star cls_s, Lit '':'', rx_star cls_s, Lit ''uni/tn-'',
      rx_plus (NoneOf [Ch CHR ''/'']), Lit ''/ap-'', rx_plus (NoneOf [Ch CHR ''/'']), Lit ''/epg-'',
      Grp 1 (rx_plus (NoneOf [Ch CHR ''/''])), Lit ''/rspathAtt-[topology/'',
      Grp 2 (Seq [Lit ''pod-'', rx_plus cls_d]), Lit ''/paths-'',
      Grp 3 (rx_plus (OneOf [Digit, Ch CHR ''('', Ch CHR '')'', Ch CHR ''X''])),
      Lit ''/pathep-['', Grp 4 (rx_plus (NoneOf [Ch CHR '']''])), Lit '']]''], ignoreCase = True\<rparr>"

definition epgVlan_re :: regex where
  \<comment> \<open>\<^verbatim>\<open>/VLAN(\d+)/i\<close>\<close>
  "epgVlan_re = \<lparr>pattern = Seq [Lit ''VLAN'', Grp 1 (rx_plus cls_d)], ignoreCase = True\<rparr>"

definition cls_node :: cls where
  \<comment> \<open>\<^verbatim>\<open>[\d()X]\<close>\<close>
  "cls_node = OneOf [Digit, Ch CHR ''('', Ch CHR '')'', Ch CHR ''X'']"

definition csvVpc_re :: regex where
  \<comment> \<open>\<^verbatim>\<open>/([\d()X]+)-([\d()X]+)-VPC/\<close>\<close>
  "csvVpc_re = \<lparr>pattern = Seq [Grp 1 (rx_plus cls_node), Lit ''-'', Grp 2 (rx_plus cls_node), Lit ''-VPC''],
      ignoreCase = False\<rparr>"

definition attProtpaths_re :: regex where
  \<comment> \<open>\<^verbatim>\<open>/protpaths-([\d()X]+)-([\d()X]+)/\<close>\<close>
  "attProtpaths_re = \<lparr>pattern = Seq [Lit ''protpaths-'', Grp 1 (rx_plus cls_node), Lit ''-'',
      Grp 2 (rx_plus cls_node)], ignoreCase = False\<rparr>"

definition csvSingle_re :: regex where
  \<comment> \<open>\<^verbatim>\<open>/^([\d()X]+)[-\/]/\<close>\<close>
  "csvSingle_re = \<lparr>pattern = Seq [Bol, Grp 1 (rx_plus cls_node),
      Rep (OneOf [Ch CHR ''-'', Ch CHR ''/'']) 1 (Some 1)], ignoreCase = False\<rparr>"

definition attPaths_re :: regex where
  \<comment> \<open>\<^verbatim>\<open>/paths-([\d()X]+)\//\<close>\<close>
  "attPaths_re = \<lparr>pattern = Seq [Lit ''paths-'', Grp 1 (rx_plus cls_node), Lit ''/''],
      ignoreCase = False\<rparr>"

definition appVpc_re :: regex where
  \<comment> \<open>\<^verbatim>\<open>/(\d+)-(\d+)-VPC/\<close> (App.tsx)\<close>
  "appVpc_re = \<lparr>pattern = Seq [Grp 1 (rx_plus cls_d), Lit ''-'', Grp 2 (rx_plus cls_d), Lit ''-VPC''],
      ignoreCase = False\<rparr>"

definition appSingle_re :: regex where
  \<comment> \<open>\<^verbatim>\<open>/^(\d+)[-\/]/\<close> (App.tsx)\<close>
  "appSingle_re = \<lparr>pattern = Seq [Bol, Grp 1 (rx_plus cls_d),
      Rep (OneOf [Ch CHR ''-'', Ch CHR ''/'']) 1 (Some 1)], ignoreCase = False\<rparr>"

section \<open>parseEndpointOutput (apicParser.ts, lines 24-104)\<close>

text \<open>The variables of the loop over the lines: \<^verbatim>\<open>vlan\<close>, \<^verbatim>\<open>defaultIp\<close>,
  \<^verbatim>\<open>pathSet\<close>, \<^verbatim>\<open>pathNodeMap\<close>, \<^verbatim>\<open>pathIPMap\<close>.\<close>

record endpoint_vars =
  v_vlan :: string
  v_defaultIp :: string
  v_pathSet :: "string list"
  v_pathNodeMap :: "(string \<times> string) list"
  v_pathIPMap :: "(string \<times> string) list"

definition skipped :: "string \<Rightarrow> bool" where
  \<comment> \<open>\<^verbatim>\<open>!line.trim() || line.includes('Node') && line.includes('Interface')\<close>\<close>
  "skipped line = (js_trim line = [] \<or> (js_includes line ''Node'' \<and> js_includes line ''Interface''))"

definition currentLineIP :: "string \<Rightarrow> string" where
  "currentLineIP line = (case js_match line ip_re of Some m \<Rightarrow> capture m 1 | None \<Rightarrow> [])"

fun first_vpc :: "regex list \<Rightarrow> string \<Rightarrow> string option" where
  \<comment> \<open>the loop over \<^verbatim>\<open>vpcPatterns\<close>, left at the first pattern that matches\<close>
  "first_vpc [] line = None"
| "first_vpc (p # ps) line =
     (case js_match line p of Some m \<Rightarrow> Some (capture m 1) | None \<Rightarrow> first_vpc ps line)"

definition add_path :: "string \<Rightarrow> string \<Rightarrow> endpoint_vars \<Rightarrow> endpoint_vars" where
  \<comment> \<open>\<^verbatim>\<open>pathSet.add(p); if (currentLineIP) pathIPMap.set(p, currentLineIP)\<close>\<close>
  "add_path p lineIP v =
     v\<lparr>v_pathSet := set_add p (v_pathSet v),
       v_pathIPMap := (if lineIP \<noteq> [] then map_set p lineIP (v_pathIPMap v) else v_pathIPMap v)\<rparr>"

definition endpoint_line :: "string \<Rightarrow> endpoint_vars \<Rightarrow> endpoint_vars" where
  "endpoint_line line v =
     (if skipped line then v
      else
        let lineIP = currentLineIP line;
            v1 = (if lineIP \<noteq> [] \<and> v_defaultIp v = [] then v\<lparr>v_defaultIp := lineIP\<rparr> else v);
            v2 = (case js_match line vlan_re of
                    Some m \<Rightarrow> (if v_vlan v1 = [] then v1\<lparr>v_vlan := capture m 1\<rparr> else v1)
                  | None \<Rightarrow> v1);
            v3 = (case js_match line nodeInterface_re of
                    Some m \<Rightarrow>
                      add_path (capture m 2) lineIP
                        (v2\<lparr>v_pathNodeMap := map_set (capture m 2) (capture m 1) (v_pathNodeMap v2)\<rparr>)
                  | None \<Rightarrow> v2)
        in (case first_vpc vpcPatterns line of
              Some vpcPath \<Rightarrow> add_path vpcPath lineIP v3
            | None \<Rightarrow> v3))"

definition endpoint_init :: endpoint_vars where
  "endpoint_init =
     \<lparr>v_vlan = [], v_defaultIp = [], v_pathSet = [], v_pathNodeMap = [], v_pathIPMap = []\<rparr>"

definition endpoint_lines :: "string list \<Rightarrow> endpoint_vars" where
  "endpoint_lines ls = fold endpoint_line ls endpoint_init"

definition endpoint_result :: "endpoint_vars \<Rightarrow> EndpointData option" where
  \<comment> \<open>\<^verbatim>\<open>if (vlan && pathSet.size > 0) return {...}; return null\<close>\<close>
  "endpoint_result v =
     (if v_vlan v \<noteq> [] \<and> length (v_pathSet v) > 0
      then Some \<lparr>EndpointData.vlan = v_vlan v, ip = v_defaultIp v, paths = v_pathSet v,
                 pod = [], pathsWithNodes = Some (v_pathNodeMap v),
                 pathsWithIPs = Some (v_pathIPMap v)\<rparr>
      else None)"

definition parseEndpointOutput :: "string \<Rightarrow> EndpointData option" where
  "parseEndpointOutput input = endpoint_result (endpoint_lines (split_nl (js_trim input)))"

section \<open>parseMoqueryOutput (apicParser.ts, lines 106-163)\<close>

definition extractVlanFromEpg :: "string \<Rightarrow> string" where
  "extractVlanFromEpg epgName =
     (case js_match epgName epgVlan_re of Some m \<Rightarrow> capture m 1 | None \<Rightarrow> [])"

definition dn_match :: "string \<Rightarrow> (captures \<times> bool) option" where
  \<comment> \<open>\<^verbatim>\<open>dnMatch\<close> and \<^verbatim>\<open>isVpc\<close>: the protpaths pattern first, the paths pattern when
      it does not match\<close>
  "dn_match line =
     (case js_match line dn_vpc_re of
        Some m \<Rightarrow> Some (m, True)
      | None \<Rightarrow> (case js_match line dn_single_re of
                    Some m \<Rightarrow> Some (m, False)
                  | None \<Rightarrow> None))"

definition moquery_line :: "string \<Rightarrow> PathAttachment list \<Rightarrow> PathAttachment list" where
  "moquery_line line attachments =
     (if js_trim line = [] then attachments
      else case dn_match line of
        None \<Rightarrow> attachments
      | Some (m, isVpc) \<Rightarrow>
          let protpathsIdentifier = capture m 3;
              epg = capture m 1;
              pod = capture m 2;
              pathName = capture m 4;
              vlan = (case js_match epg epgVlan_re of Some vm \<Rightarrow> capture vm 1 | None \<Rightarrow> []);
              fullPath =
                (if isVpc
                 then pod @ ''/protpaths-'' @ protpathsIdentifier @ ''/pathep-['' @ pathName @ '']''
                 else pod @ ''/paths-'' @ protpathsIdentifier @ ''/pathep-['' @ pathName @ '']'')
          in if vlan \<noteq> [] \<and> pathName \<noteq> []
             then attachments @
                    [\<lparr>PathAttachment.vlan = vlan, epg = epg, path = pathName,
                      fullPath = fullPath, pod = pod\<rparr>]
             else attachments)"

definition moquery_lines :: "string list \<Rightarrow> PathAttachment list" where
  "moquery_lines ls = fold moquery_line ls []"

definition parseMoqueryOutput :: "string \<Rightarrow> PathAttachment list" where
  "parseMoqueryOutput input = moquery_lines (split_nl (js_trim input))"

section \<open>validateVlanAllowances (apicParser.ts, lines 165-200)\<close>

definition normalizePathName :: "string \<Rightarrow> string" where
  \<comment> \<open>\<^verbatim>\<open>path.trim().replace(/[\[\]]/g, '').toLowerCase()\<close>: the global replace deletes
      every bracket\<close>
  "normalizePathName p =
     toLowerCase (filter (\<lambda>c. c \<noteq> CHR ''['' \<and> c \<noteq> CHR '']'') (js_trim p))"

definition path_map :: "PathAttachment list \<Rightarrow> (string \<times> PathAttachment) list" where
  \<comment> \<open>\<^verbatim>\<open>atts.forEach(att => map.set(normalizePathName(att.path), att))\<close> on a new Map\<close>
  "path_map atts = fold (\<lambda>att m. map_set (normalizePathName (PathAttachment.path att)) att m) atts []"

definition validate_path :: "(string \<times> PathAttachment) list \<Rightarrow> string \<Rightarrow> ValidationResult" where
  "validate_path allowedPathsMap p =
     (let isAllowed = map_has allowedPathsMap (normalizePathName p)
      in \<lparr>path = p, hasActiveEndpoint = True, isVlanAllowed = isAllowed,
          status = (if isAllowed then allowed else not_allowed)\<rparr>)"

definition validateVlanAllowances :: "EndpointData \<Rightarrow> PathAttachment list \<Rightarrow> ValidationResult list" where
  "validateVlanAllowances endpointData pathAttachments =
     (let filteredAttachments =
            filter (\<lambda>att. PathAttachment.vlan att = EndpointData.vlan endpointData) pathAttachments;
          allowedPathsMap = path_map filteredAttachments
      in fold (\<lambda>p results. results @ [validate_path allowedPathsMap p])
           (paths endpointData) [])"

section \<open>generateCSV (apicParser.ts, lines 202-279)\<close>

definition vpc_nodes_match :: "string \<Rightarrow> string \<Rightarrow> PathAttachment \<Rightarrow> bool" where
  \<comment> \<open>\<^verbatim>\<open>attMatch && attMatch[1] === node1 && attMatch[2] === node2\<close>\<close>
  "vpc_nodes_match node1 node2 att =
     (case js_match (fullPath att) attProtpaths_re of
        Some m \<Rightarrow> capture m 1 = node1 \<and> capture m 2 = node2
      | None \<Rightarrow> False)"

definition single_node_match :: "string \<Rightarrow> PathAttachment \<Rightarrow> bool" where
  \<comment> \<open>\<^verbatim>\<open>attMatch && attMatch[1] === node\<close>\<close>
  "single_node_match node1 att =
     (case js_match (fullPath att) attPaths_re of
        Some m \<Rightarrow> capture m 1 = node1
      | None \<Rightarrow> False)"

definition pod_of_first :: "(PathAttachment \<Rightarrow> bool) \<Rightarrow> PathAttachment list \<Rightarrow> string \<Rightarrow> string" where
  \<comment> \<open>\<^verbatim>\<open>for (const att of pathAttachments) if (...) { pod = att.pod; break; }\<close>\<close>
  "pod_of_first P atts pod0 = (case find P atts of Some att \<Rightarrow> PathAttachment.pod att | None \<Rightarrow> pod0)"

definition defaultPod :: "string \<Rightarrow> PathAttachment list \<Rightarrow> string" where
  "defaultPod vlan0 pathAttachments =
     (case filter (\<lambda>att. PathAttachment.vlan att = vlan0) pathAttachments of
        att # _ \<Rightarrow> PathAttachment.pod att
      | [] \<Rightarrow> ''pod-1'')"

definition csv_row :: "string \<Rightarrow> string \<Rightarrow> PathAttachment list \<Rightarrow> string \<Rightarrow> string" where
  "csv_row vlan0 epg0 pathAttachments pathName =
     (case map_get (path_map pathAttachments) (normalizePathName pathName) of
        Some moqueryData \<Rightarrow> vlan0 @ '','' @ epg0 @ '','' @ fullPath moqueryData
      | None \<Rightarrow>
         (case js_match pathName csvVpc_re of
            Some m \<Rightarrow>
              let node1 = capture m 1; node2 = capture m 2;
                  pod1 = pod_of_first (vpc_nodes_match node1 node2) pathAttachments
                           (defaultPod vlan0 pathAttachments)
              in vlan0 @ '','' @ epg0 @ '','' @ pod1 @ ''/protpaths-'' @ node1 @ ''-'' @ node2
                   @ ''/pathep-['' @ pathName @ '']''
          | None \<Rightarrow>
             (case js_match pathName csvSingle_re of
                Some m \<Rightarrow>
                  let node1 = capture m 1;
                      pod1 = pod_of_first (single_node_match node1) pathAttachments
                               (defaultPod vlan0 pathAttachments)
                  in vlan0 @ '','' @ epg0 @ '','' @ pod1 @ ''/paths-'' @ node1
                       @ ''/pathep-['' @ pathName @ '']''
              | None \<Rightarrow>
                  vlan0 @ '','' @ epg0 @ '','' @ defaultPod vlan0 pathAttachments
                    @ ''/paths-XXX/pathep-['' @ pathName @ '']'')))"

definition notAllowedPaths :: "ValidationResult list \<Rightarrow> string list" where
  "notAllowedPaths results = map path (filter (\<lambda>r. status r = not_allowed) results)"

definition csv_rows :: "string \<Rightarrow> string \<Rightarrow> ValidationResult list \<Rightarrow> PathAttachment list \<Rightarrow> string list" where
  "csv_rows vlan0 epg0 results pathAttachments =
     map (csv_row vlan0 epg0 pathAttachments) (notAllowedPaths results)"

definition generateCSV ::
  "string \<Rightarrow> string \<Rightarrow> ValidationResult list \<Rightarrow> EndpointData \<Rightarrow> PathAttachment list \<Rightarrow> string" where
  "generateCSV vlan0 epg0 results endpointData pathAttachments =
     ''VLAN,EPG,PATH'' @ [CHR 0x0A] @ join_nl (csv_rows vlan0 epg0 results pathAttachments)"

section \<open>handleExportAllCSV (App.tsx, lines 97-154)\<close>

record ValidationEntry =
  entry_id :: string
  endpointInput :: string
  epgName :: string
  results :: "ValidationResult list option"
  endpointData :: "EndpointData option"

definition app_pod :: "PathAttachment list \<Rightarrow> string \<Rightarrow> string" where
  \<comment> \<open>\<^verbatim>\<open>let pod = 'pod-2'\<close>, then the loop over \<^verbatim>\<open>pathAttachments\<close> that takes the pod
      of the first attachment with the same normalised path; the normalisation is written
      inline in App.tsx, with the expression of \<^verbatim>\<open>normalizePathName\<close>\<close>
  "app_pod pathAttachments p =
     (case find (\<lambda>attachment. normalizePathName (PathAttachment.path attachment) = normalizePathName p)
             pathAttachments of
        Some attachment \<Rightarrow> PathAttachment.pod attachment
      | None \<Rightarrow> ''pod-2'')"

definition app_fullPath :: "PathAttachment list \<Rightarrow> string \<Rightarrow> string" where
  "app_fullPath pathAttachments p =
     (let pod1 = app_pod pathAttachments p
      in case js_match p appVpc_re of
           Some m \<Rightarrow> pod1 @ ''/protpaths-'' @ capture m 1 @ ''-'' @ capture m 2
                      @ ''/pathep-['' @ p @ '']''
         | None \<Rightarrow>
            (case js_match p appSingle_re of
               Some m \<Rightarrow> pod1 @ ''/paths-'' @ capture m 1 @ ''/pathep-['' @ p @ '']''
             | None \<Rightarrow> pod1 @ ''/paths-XXX/pathep-['' @ p @ '']''))"

definition entry_rows :: "PathAttachment list \<Rightarrow> ValidationEntry \<Rightarrow> string list" where
  \<comment> \<open>the body of \<^verbatim>\<open>entries.forEach\<close>: the rows one entry pushes on \<^verbatim>\<open>allRows\<close>\<close>
  "entry_rows pathAttachments entry =
     (case (results entry, endpointData entry) of
        (Some rs, Some ed) \<Rightarrow>
          let notAllowed = filter (\<lambda>r. status r = not_allowed) rs
          in if length notAllowed > 0
             then
               let vlanNumber = (if extractVlanFromEpg (epgName entry) \<noteq> []
                                 then extractVlanFromEpg (epgName entry)
                                 else EndpointData.vlan ed);
                   epgFormatted = (if startsWith (toLowerCase (epgName entry)) ''epg-''
                                   then epgName entry else ''epg-'' @ epgName entry)
               in map (\<lambda>result. vlanNumber @ '','' @ epgFormatted @ '',''
                                  @ app_fullPath pathAttachments (path result)) notAllowed
             else []
      | _ \<Rightarrow> [])"

definition handleExportAllCSV :: "ValidationEntry list \<Rightarrow> PathAttachment list \<Rightarrow> string + string" where
  \<comment> \<open>Inl: the message given to \<^verbatim>\<open>setError\<close>; Inr: the text given to \<^verbatim>\<open>downloadCSV\<close>
      (the file name, made from the date, is left out)\<close>
  "handleExportAllCSV entries pathAttachments =
     (let allRows = concat (map (entry_rows pathAttachments) entries)
      in if length allRows = 0 then Inl ''No validation issues to export.''
         else Inr (''VLAN,EPG,PATH'' @ [CHR 0x0A] @ join_nl allRows))"

section \<open>Readings of the specification, and example data\<close>

text \<open>Two definitions that follow the words of the specification and not the code: a header
  line as a line that holds the tokens "node" and "interface", compared without regard to case,
  and the pod of a VPC row as the pod of the first attachment whose \<^verbatim>\<open>fullPath\<close>
  contains the text \<^verbatim>\<open>protpaths-<n1>-<n2>\<close>. The code is compared with them below.\<close>

definition header_spec :: "string \<Rightarrow> bool" where
  "header_spec line =
     (js_includes (toLowerCase line) ''node'' \<and> js_includes (toLowerCase line) ''interface'')"


text \<open>Example records for the concrete instances below.\<close>

definition ex_endpoint :: EndpointData where
  "ex_endpoint = \<lparr>EndpointData.vlan = ''713'', ip = ''10.1.2.3'', paths = [''eth1/5'', ''eth1/6''],
     pod = [], pathsWithNodes = Some [(''eth1/5'', ''303''), (''eth1/6'', ''303'')],
     pathsWithIPs = Some []\<rparr>"

definition ex_attachments :: "PathAttachment list" where
  "ex_attachments =
     [\<lparr>PathAttachment.vlan = ''713'', epg = ''EPG-VLAN713-x'', path = ''Eth1/5'',
       fullPath = ''pod-1/paths-303/pathep-[Eth1/5]'', pod = ''pod-1''\<rparr>,
      \<lparr>PathAttachment.vlan = ''999'', epg = ''EPG-VLAN999-y'', path = ''eth1/6'',
       fullPath = ''pod-2/paths-304/pathep-[eth1/6]'', pod = ''pod-2''\<rparr>]"

definition denied :: "string \<Rightarrow> ValidationResult" where
  "denied p = \<lparr>path = p, hasActiveEndpoint = True, isVlanAllowed = False, status = not_allowed\<rparr>"

definition ex_vpc_attachment :: PathAttachment where
  "ex_vpc_attachment =
     \<lparr>PathAttachment.vlan = ''999'', epg = ''EPG-VLAN999-x'', path = ''425-4267-VPC-31-32-PG'',
      fullPath = ''pod-3/protpaths-425-4267/pathep-[425-4267-VPC-31-32-PG]'', pod = ''pod-3''\<rparr>"


definition ex_vpc_line :: string where
  "ex_vpc_line = ''dn : uni/tn-T/ap-A/epg-EPG-VLAN623-x/rspathAtt-[topology/pod-2/protpaths-425-426/pathep-[425-426-VPC-31-32-PG]]''"

definition ex_single_line :: string where
  "ex_single_line = ''dn : uni/tn-T/ap-A/epg-EPG-VLAN623-x/rspathAtt-[topology/pod-1/paths-303/pathep-[eth1/5]]''"

definition ex_export_endpoint :: EndpointData where
  "ex_export_endpoint = \<lparr>EndpointData.vlan = ''713'', ip = [], paths = [''eth1/5''], pod = [],
        pathsWithNodes = Some [(''eth1/5'', ''303'')], pathsWithIPs = Some []\<rparr>"

definition ex_entry :: ValidationEntry where
  "ex_entry = \<lparr>entry_id = ''1'', endpointInput = ''303  eth1/5  vlan-713'',
     epgName = ''EPG-VLAN713-x'', results = Some [denied ''eth1/5''],
     endpointData = Some ex_export_endpoint\<rparr>"


section \<open>The matcher\<close>

text \<open>What a match consumes and captures: the matched text is a part of the input,
  and a match sets exactly the groups of the pattern.\<close>

lemma lit_match_text:
  "lit_match ic ps prev rest = Some (t, prev', rest') \<Longrightarrow>
     rest = t @ rest' \<and> length t = length ps \<and> (\<not> ic \<longrightarrow> t = ps)"
proof (induction ic ps prev rest arbitrary: t prev' rest' rule: lit_match.induct)
  case (1 ic prev rest)
  then show ?case by simp
next
  case (2 ic p ps prev)
  then show ?case by simp
next
  case (3 ic p ps prev c cs)
  then show ?case
    by (auto simp: char_eq_def split: if_splits option.splits)
qed

lemma rep_match_text:
  "(t, prev', rest') \<in> set (rep_match ic cl lo hi prev rest) \<Longrightarrow>
     rest = t @ rest' \<and> (\<forall>c\<in>set t. in_cls ic cl c)"
proof (induction rest arbitrary: lo hi prev t prev' rest')
  case Nil
  then show ?case by (simp split: if_splits)
next
  case (Cons c cs)
  then show ?case by (fastforce split: if_splits)
qed

lemma rep_match_min:
  "(t, p, r) \<in> set (rep_match ic cl lo hi prev rest) \<Longrightarrow> lo \<le> length t"
proof (induction rest arbitrary: lo hi prev t p r)
  case Nil
  then show ?case by (simp split: if_splits)
next
  case (Cons c cs)
  then show ?case by (fastforce split: if_splits)
qed

lemma rmatch_text:
  "(t, prev', rest', caps') \<in> set (rmatch ic r (prev, rest, caps)) \<Longrightarrow>
     rest = t @ rest' \<and> dom caps' = dom caps \<union> rx_groups r"
proof (induction ic r "(prev, rest, caps)" arbitrary: t prev' rest' caps' prev rest caps
       rule: rmatch.induct)
  case (1 ic ps prev rest caps)
  then show ?case by (auto split: option.splits dest: lit_match_text [OF sym])
next
  case (2 ic cl lo hi prev rest caps)
  then show ?case by (auto dest: rep_match_text)
next
  case (3 ic n r prev rest caps)
  then show ?case by fastforce
next
  case (4 ic prev rest caps)
  then show ?case by simp
next
  case (5 ic r rs prev rest caps)
  from "5.prems" obtain t1 p1 r1 c1 t2 where
    a: "(t1, p1, r1, c1) \<in> set (rmatch ic r (prev, rest, caps))"
    and b: "(t2, prev', rest', caps') \<in> set (rmatch ic (Seq rs) (p1, r1, c1))"
    and t: "t = t1 @ t2"
    by auto
  from "5.hyps"(1) [OF a] have a': "rest = t1 @ r1" "dom c1 = dom caps \<union> rx_groups r" by auto
  from "5.hyps"(2) [OF a _ b] have b': "r1 = t2 @ rest'" "dom caps' = dom c1 \<union> rx_groups (Seq rs)"
    by auto
  from a' b' t show ?case by auto
next
  case (6 ic prev rest caps)
  then show ?case by (simp split: if_splits)
next
  case (7 ic prev rest caps)
  then show ?case by (simp split: if_splits)
qed

lemma rx_search_sound:
  "rx_search ic r prev rest = Some m \<Longrightarrow>
     \<exists>pre prev0 rest0 t prev' rest' caps'.
        rest = pre @ rest0 \<and>
        (t, prev', rest', caps') \<in> set (rmatch ic r (prev0, rest0, Map.empty)) \<and>
        m = caps'(0 \<mapsto> t)"
proof (induction ic r prev rest rule: rx_search.induct)
  case (1 ic r prev rest)
  show ?case
  proof (cases "rmatch ic r (prev, rest, Map.empty)")
    case Nil
    with "1.prems" obtain c cs where rest: "rest = c # cs" and "rx_search ic r (Some c) cs = Some m"
      by (auto split: list.splits)
    with "1.IH" [OF Nil rest] obtain pre prev0 rest0 t prev' rest' caps' where
      "cs = pre @ rest0" "(t, prev', rest', caps') \<in> set (rmatch ic r (prev0, rest0, Map.empty))"
      "m = caps'(0 \<mapsto> t)"
      by blast
    with rest have "rest = (c # pre) @ rest0" by simp
    then show ?thesis
      using \<open>(t, prev', rest', caps') \<in> set (rmatch ic r (prev0, rest0, Map.empty))\<close>
        \<open>m = caps'(0 \<mapsto> t)\<close> by blast
  next
    case (Cons x more)
    obtain t prev' rest' caps' where x: "x = (t, prev', rest', caps')" by (cases x)
    with Cons "1.prems" have m: "m = caps'(0 \<mapsto> t)" by simp
    have "(t, prev', rest', caps') \<in> set (rmatch ic r (prev, rest, Map.empty))"
      by (simp add: Cons x)
    moreover have "rest = [] @ rest" by simp
    ultimately show ?thesis using m by blast
  qed
qed

lemma js_match_sound:
  assumes "js_match s0 re = Some m"
  obtains pre t post caps' prev0 prev' where
    "s0 = pre @ t @ post" and "m = caps'(0 \<mapsto> t)" and "dom caps' = rx_groups (pattern re)"
    and "(t, prev', post, caps')
           \<in> set (rmatch (ignoreCase re) (pattern re) (prev0, t @ post, Map.empty))"
proof -
  from assms have "rx_search (ignoreCase re) (pattern re) None s0 = Some m"
    by (simp add: js_match_def)
  from rx_search_sound [OF this] obtain pre prev0 rest0 t prev' rest' caps' where
    a: "s0 = pre @ rest0"
    and b: "(t, prev', rest', caps') \<in> set (rmatch (ignoreCase re) (pattern re) (prev0, rest0, Map.empty))"
    and m: "m = caps'(0 \<mapsto> t)"
    by (elim exE conjE)
  from rmatch_text [OF b] have c: "rest0 = t @ rest'" and d: "dom caps' = rx_groups (pattern re)"
    by simp_all
  from a c have e: "s0 = pre @ t @ rest'" by simp
  from b c have f: "(t, prev', rest', caps')
      \<in> set (rmatch (ignoreCase re) (pattern re) (prev0, t @ rest', Map.empty))" by simp
  from e m d f show thesis by (rule that)
qed

lemma js_match_groups:
  assumes "js_match s0 re = Some m"
  shows "dom m = insert 0 (rx_groups (pattern re))"
proof -
  from assms obtain t caps' where
    "m = caps'(0 \<mapsto> t)" "dom caps' = rx_groups (pattern re)" by (rule js_match_sound)
  then show ?thesis by auto
qed

lemma rmatch_Seq_Cons:
  "(t, st') \<in> set (rmatch ic (Seq (r # rs)) st) \<longleftrightarrow>
     (\<exists>t1 st1 t2. (t1, st1) \<in> set (rmatch ic r st) \<and>
        (t2, st') \<in> set (rmatch ic (Seq rs) st1) \<and> t = t1 @ t2)"
  by force

lemma rmatch_Seq_Nil: "(t, st') \<in> set (rmatch ic (Seq []) st) \<longleftrightarrow> t = [] \<and> st' = st"
  by auto

lemma rmatch_Lit_exact:
  "(t, st') \<in> set (rmatch False (Lit w) st) \<Longrightarrow> t = w \<and> snd (snd st') = snd (snd st)"
  by (cases st) (auto split: option.splits dest: lit_match_text [OF sym])

lemma rmatch_Grp_Rep:
  "(t, st') \<in> set (rmatch ic (Grp n (Rep cl lo hi)) st) \<Longrightarrow>
     snd (snd st') = (snd (snd st))(n \<mapsto> t)"
  by (cases st) auto

lemma startsWith_iff: "startsWith s0 p \<longleftrightarrow> (\<exists>post. s0 = p @ post)"
  by (induction s0 p rule: startsWith.induct) auto

lemma js_includes_iff: "js_includes s0 sub \<longleftrightarrow> (\<exists>pre post. s0 = pre @ sub @ post)"
proof (induction s0)
  case Nil
  then show ?case by auto
next
  case (Cons c cs)
  show ?case
  proof
    assume "js_includes (c # cs) sub"
    then consider "startsWith (c # cs) sub" | "js_includes cs sub" by auto
    then show "\<exists>pre post. c # cs = pre @ sub @ post"
    proof cases
      case 1
      then obtain post where "c # cs = [] @ sub @ post" by (auto simp: startsWith_iff)
      then show ?thesis by blast
    next
      case 2
      with Cons.IH obtain pre post where "cs = pre @ sub @ post" by blast
      then have "c # cs = (c # pre) @ sub @ post" by simp
      then show ?thesis by blast
    qed
  next
    assume "\<exists>pre post. c # cs = pre @ sub @ post"
    then obtain pre post where e: "c # cs = pre @ sub @ post" by blast
    show "js_includes (c # cs) sub"
    proof (cases pre)
      case Nil
      with e have "startsWith (c # cs) sub" by (auto simp: startsWith_iff)
      then show ?thesis by simp
    next
      case (Cons a pre')
      with e have "cs = pre' @ sub @ post" by simp
      with Cons.IH have "js_includes cs sub" by blast
      then show ?thesis by simp
    qed
  qed
qed

lemma rmatch_lit_grp_plus:
  assumes "(t, st) \<in> set (rmatch ic (Seq [Lit w, Grp n (Rep cl (Suc k) None)]) st0)"
  shows "\<exists>g. snd (snd st) n = Some g \<and> g \<noteq> []"
proof -
  obtain prev rest caps where st0: "st0 = (prev, rest, caps)" by (cases st0)
  from assms show ?thesis
    unfolding st0 by (auto split: option.splits dest!: rep_match_min)
qed

section \<open>Sets, maps and loops\<close>

lemma map_of_map_set: "map_of (map_set k v m) = (map_of m)(k \<mapsto> v)"
  by (induction m) (auto simp: fun_eq_iff)

lemma find_app:
  "find P (xs @ ys) = (case find P xs of Some x \<Rightarrow> Some x | None \<Rightarrow> find P ys)"
  by (induction xs) auto

lemma map_of_fold_set:
  "map_of (fold (\<lambda>a m. map_set (f a) a m) atts m0) k =
     (case find (\<lambda>a. f a = k) (rev atts) of Some a \<Rightarrow> Some a | None \<Rightarrow> map_of m0 k)"
proof (induction atts arbitrary: m0)
  case Nil
  then show ?case by simp
next
  case (Cons a atts)
  show ?case
    by (simp add: Cons.IH map_of_map_set find_app split: option.splits)
qed

lemma find_rev_last:
  "find P (rev xs) = (if filter P xs = [] then None else Some (last (filter P xs)))"
  by (induction xs) (auto simp: find_app split: option.splits)

lemma map_get_path_map:
  "map_get (path_map atts) k =
     (if filter (\<lambda>a. normalizePathName (PathAttachment.path a) = k) atts = [] then None
      else Some (last (filter (\<lambda>a. normalizePathName (PathAttachment.path a) = k) atts)))"
  by (simp add: map_get_def path_map_def map_of_fold_set find_rev_last)

lemma map_has_path_map:
  "map_has (path_map atts) k = (\<exists>a\<in>set atts. normalizePathName (PathAttachment.path a) = k)"
  by (auto simp: map_has_def map_get_path_map [unfolded map_get_def] filter_empty_conv)

lemma fold_push: "fold (\<lambda>x acc. acc @ [g x]) xs acc0 = acc0 @ map g xs"
  by (induction xs arbitrary: acc0) auto

section \<open>The allowance validator\<close>

lemma validate_map:
  "validateVlanAllowances E A =
     map (validate_path (path_map (filter (\<lambda>att. PathAttachment.vlan att = EndpointData.vlan E) A)))
       (paths E)"
  by (simp add: validateVlanAllowances_def fold_push)

lemma status_validate_path:
  "status (validate_path (path_map (filter (\<lambda>att. PathAttachment.vlan att = v) A)) p) = allowed \<longleftrightarrow>
     (\<exists>att\<in>set A. PathAttachment.vlan att = v \<and>
        normalizePathName (PathAttachment.path att) = normalizePathName p)"
  by (auto simp: validate_path_def map_has_path_map Let_def)

lemma path_validate_path: "path (validate_path m p) = p"
  by (simp add: validate_path_def Let_def)

text \<open>C1. For every endpoint record and every attachment list, \<^const>\<open>validateVlanAllowances\<close>
  returns one result per element of the paths of the record, in their order; the status of
  a result is \<^const>\<open>allowed\<close> exactly when some attachment has the VLAN of the record and
  a path equal to the endpoint path under \<^const>\<open>normalizePathName\<close> (trim, delete the
  square brackets, lower case), and \<^const>\<open>not_allowed\<close> otherwise.\<close>

theorem validate_one_result_per_path:
  "map path (validateVlanAllowances E A) = paths E \<and>
   length (validateVlanAllowances E A) = length (paths E) \<and>
   (\<forall>i<length (paths E).
      (status (validateVlanAllowances E A ! i) = allowed \<longleftrightarrow>
         (\<exists>att\<in>set A. PathAttachment.vlan att = EndpointData.vlan E \<and>
            normalizePathName (PathAttachment.path att) = normalizePathName (paths E ! i))) \<and>
      (status (validateVlanAllowances E A ! i) = not_allowed \<longleftrightarrow>
         \<not> (\<exists>att\<in>set A. PathAttachment.vlan att = EndpointData.vlan E \<and>
            normalizePathName (PathAttachment.path att) = normalizePathName (paths E ! i))))"
proof -
  have one: "map path (validateVlanAllowances E A) = paths E"
    by (simp add: validate_map path_validate_path comp_def)
  have two: "length (validateVlanAllowances E A) = length (paths E)"
    by (simp add: validate_map)
  have three: "status (validateVlanAllowances E A ! i) = allowed \<longleftrightarrow>
         (\<exists>att\<in>set A. PathAttachment.vlan att = EndpointData.vlan E \<and>
            normalizePathName (PathAttachment.path att) = normalizePathName (paths E ! i))"
    if "i < length (paths E)" for i
    using that by (simp add: validate_map status_validate_path)
  have four: "(s = not_allowed) = (s \<noteq> allowed)" for s :: Status
    by (cases s) simp_all
  show ?thesis using one two three four by blast
qed

theorem validate_one_result_per_path_witness:
  "map path (validateVlanAllowances ex_endpoint ex_attachments) = [''eth1/5'', ''eth1/6''] \<and>
   status (validateVlanAllowances ex_endpoint ex_attachments ! 0) = allowed \<and>
   status (validateVlanAllowances ex_endpoint ex_attachments ! 1) = not_allowed"
proof -
  have p: "paths ex_endpoint = [''eth1/5'', ''eth1/6'']" by (simp add: ex_endpoint_def)
  have a: "\<exists>att\<in>set ex_attachments. PathAttachment.vlan att = EndpointData.vlan ex_endpoint \<and>
            normalizePathName (PathAttachment.path att) = normalizePathName (paths ex_endpoint ! 0)"
    by code_simp
  have b: "\<not> (\<exists>att\<in>set ex_attachments. PathAttachment.vlan att = EndpointData.vlan ex_endpoint \<and>
            normalizePathName (PathAttachment.path att) = normalizePathName (paths ex_endpoint ! 1))"
    by code_simp
  from validate_one_result_per_path [of ex_endpoint ex_attachments] a b p
  show ?thesis by auto
qed

text \<open>C3. For every endpoint record with a non-empty path list, validation against the empty
  attachment list gives a result for every path, and every result is \<^const>\<open>not_allowed\<close>.\<close>

theorem empty_attachments_deny_all:
  "paths E \<noteq> [] \<Longrightarrow>
     validateVlanAllowances E [] \<noteq> [] \<and>
     map path (validateVlanAllowances E []) = paths E \<and>
     (\<forall>r\<in>set (validateVlanAllowances E []). status r = not_allowed \<and> \<not> isVlanAllowed r)"
  by (auto simp: validate_map validate_path_def Let_def path_map_def map_has_def comp_def)

theorem empty_attachments_deny_all_witness:
  "paths ex_endpoint \<noteq> [] \<and>
   map path (validateVlanAllowances ex_endpoint []) = [''eth1/5'', ''eth1/6''] \<and>
   map status (validateVlanAllowances ex_endpoint []) = [not_allowed, not_allowed]"
proof -
  have p: "paths ex_endpoint = [''eth1/5'', ''eth1/6'']" by (simp add: ex_endpoint_def)
  then have ne: "paths ex_endpoint \<noteq> []" by simp
  from empty_attachments_deny_all [OF ne] p
  obtain r1 r2 where rs: "validateVlanAllowances ex_endpoint [] = [r1, r2]"
    and all: "\<forall>r\<in>set (validateVlanAllowances ex_endpoint []). status r = not_allowed \<and> \<not> isVlanAllowed r"
    and mp: "map path (validateVlanAllowances ex_endpoint []) = [''eth1/5'', ''eth1/6'']"
    by (auto simp: map_eq_Cons_conv)
  from all show ?thesis using ne mp by (simp add: rs)
qed

text \<open>C9. In every result of \<^const>\<open>validateVlanAllowances\<close>, \<^const>\<open>isVlanAllowed\<close>
  holds exactly when the status is \<^const>\<open>allowed\<close>, and \<^const>\<open>hasActiveEndpoint\<close>
  holds.\<close>

theorem validation_result_invariant:
  "\<forall>r\<in>set (validateVlanAllowances E A).
     (isVlanAllowed r \<longleftrightarrow> status r = allowed) \<and> hasActiveEndpoint r"
  by (auto simp: validate_map validate_path_def Let_def)

theorem validation_result_invariant_witness:
  "validateVlanAllowances ex_endpoint ex_attachments \<noteq> [] \<and>
   list_all (\<lambda>r. (isVlanAllowed r \<longleftrightarrow> status r = allowed) \<and> hasActiveEndpoint r)
     (validateVlanAllowances ex_endpoint ex_attachments)"
proof -
  have "validateVlanAllowances ex_endpoint ex_attachments \<noteq> []"
    by (simp add: validate_map ex_endpoint_def)
  with validation_result_invariant [of ex_endpoint ex_attachments] show ?thesis
    by (simp add: list_all_iff)
qed

section \<open>The endpoint parser\<close>

lemma vlan_capture_nonempty:
  assumes "js_match l vlan_re = Some m"
  shows "capture m 1 \<noteq> []"
proof -
  have pat: "pattern vlan_re = Seq [Lit ''vlan-'', Grp 1 (Rep cls_d (Suc 0) None)]"
    by (simp add: vlan_re_def rx_plus_def)
  from assms obtain pre t post caps' prev0 prev' where
    m: "m = caps'(0 \<mapsto> t)"
    and r: "(t, prev', post, caps')
              \<in> set (rmatch (ignoreCase vlan_re) (pattern vlan_re) (prev0, t @ post, Map.empty))"
    by (rule js_match_sound)
  from rmatch_lit_grp_plus [OF r [unfolded pat]] obtain g where "caps' 1 = Some g" and "g \<noteq> []"
    by auto
  with m show ?thesis by (simp add: capture_def)
qed

lemma first_vpc_None: "first_vpc ps l = None \<longleftrightarrow> (\<forall>re\<in>set ps. js_match l re = None)"
  by (induction ps) (auto split: option.splits)

lemma set_add_nonempty: "set_add x xs \<noteq> []"
  by (auto simp: set_add_def)

lemma add_path_fields:
  "v_vlan (add_path p i v) = v_vlan v" "v_pathSet (add_path p i v) \<noteq> []"
  by (simp_all add: add_path_def set_add_nonempty)

lemma endpoint_line_skipped: "skipped l \<Longrightarrow> endpoint_line l v = v"
  by (simp add: endpoint_line_def)

lemma endpoint_line_vlan:
  "v_vlan (endpoint_line l v) \<noteq> [] \<longleftrightarrow>
     v_vlan v \<noteq> [] \<or> (\<not> skipped l \<and> js_match l vlan_re \<noteq> None)"
  by (auto simp: endpoint_line_def Let_def add_path_fields
                 vlan_capture_nonempty [unfolded One_nat_def]
           split: option.splits)

lemma endpoint_line_paths:
  "v_pathSet (endpoint_line l v) \<noteq> [] \<longleftrightarrow>
     v_pathSet v \<noteq> [] \<or>
     (\<not> skipped l \<and> (js_match l nodeInterface_re \<noteq> None
                        \<or> (\<exists>re\<in>set vpcPatterns. js_match l re \<noteq> None)))"
proof (cases "skipped l")
  case True
  then show ?thesis by (simp add: endpoint_line_skipped)
next
  case False
  have vpc: "(\<exists>re\<in>set vpcPatterns. js_match l re \<noteq> None) \<longleftrightarrow> first_vpc vpcPatterns l \<noteq> None"
    using first_vpc_None [of vpcPatterns l] by auto
  show ?thesis
    unfolding vpc using False
    by (auto simp: endpoint_line_def Let_def add_path_def set_add_nonempty split: option.splits)
qed

lemma fold_endpoint_vlan:
  "v_vlan (fold endpoint_line ls v) \<noteq> [] \<longleftrightarrow>
     v_vlan v \<noteq> [] \<or> (\<exists>l\<in>set ls. \<not> skipped l \<and> js_match l vlan_re \<noteq> None)"
proof (induction ls arbitrary: v)
  case Nil
  then show ?case by simp
next
  case (Cons l ls)
  show ?case
    unfolding fold_simps Cons.IH endpoint_line_vlan by auto
qed

lemma fold_endpoint_paths:
  "v_pathSet (fold endpoint_line ls v) \<noteq> [] \<longleftrightarrow>
     v_pathSet v \<noteq> [] \<or>
     (\<exists>l\<in>set ls. \<not> skipped l \<and> (js_match l nodeInterface_re \<noteq> None
                        \<or> (\<exists>re\<in>set vpcPatterns. js_match l re \<noteq> None)))"
proof (induction ls arbitrary: v)
  case Nil
  then show ?case by simp
next
  case (Cons l ls)
  show ?case
    unfolding fold_simps Cons.IH endpoint_line_paths by auto
qed

text \<open>C4. \<^const>\<open>parseEndpointOutput\<close> returns null (\<^const>\<open>None\<close>) exactly when no
  processed line holds a \<^verbatim>\<open>vlan-<digits>\<close> token or no processed line gives a path (an
  interface path or a VPC path); a record it returns has a non-empty VLAN and a non-empty path
  list. The function is total: every operation of the source (trim, split, includes, match,
  the Set and the Maps) is defined on every string, so there is no exception to model.\<close>

theorem parseEndpointOutput_null_iff:
  "(parseEndpointOutput input = None \<longleftrightarrow>
      \<not> (\<exists>l\<in>set (split_nl (js_trim input)). \<not> skipped l \<and> js_match l vlan_re \<noteq> None) \<or>
      \<not> (\<exists>l\<in>set (split_nl (js_trim input)).
            \<not> skipped l \<and> (js_match l nodeInterface_re \<noteq> None
                              \<or> (\<exists>re\<in>set vpcPatterns. js_match l re \<noteq> None)))) \<and>
   (\<forall>E. parseEndpointOutput input = Some E \<longrightarrow> EndpointData.vlan E \<noteq> [] \<and> paths E \<noteq> [])"
proof -
  let ?v = "fold endpoint_line (split_nl (js_trim input)) endpoint_init"
  have init: "v_vlan endpoint_init = []" "v_pathSet endpoint_init = []"
    by (simp_all add: endpoint_init_def)
  have a: "parseEndpointOutput input = None \<longleftrightarrow> v_vlan ?v = [] \<or> v_pathSet ?v = []"
    by (simp add: parseEndpointOutput_def endpoint_lines_def endpoint_result_def)
  have b: "EndpointData.vlan E \<noteq> [] \<and> paths E \<noteq> []" if "parseEndpointOutput input = Some E" for E
    using that
    by (auto simp: parseEndpointOutput_def endpoint_lines_def endpoint_result_def split: if_splits)
  show ?thesis
    using a b fold_endpoint_vlan [of "split_nl (js_trim input)" endpoint_init]
      fold_endpoint_paths [of "split_nl (js_trim input)" endpoint_init] init
    by blast
qed

theorem parseEndpointOutput_null_iff_witness:
  "parseEndpointOutput ''Node  Interface  Encap\<newline>303  eth1/5  vlan-713'' \<noteq> None \<and>
   parseEndpointOutput ''303  eth1/5  no encap'' = None \<and>
   parseEndpointOutput ''vlan-713 only'' = None"
proof -
  let ?a = "''Node  Interface  Encap\<newline>303  eth1/5  vlan-713''"
  have a1: "\<exists>l\<in>set (split_nl (js_trim ?a)). \<not> skipped l \<and> js_match l vlan_re \<noteq> None"
    by code_simp
  have a2: "\<exists>l\<in>set (split_nl (js_trim ?a)). \<not> skipped l \<and> (js_match l nodeInterface_re \<noteq> None
              \<or> (\<exists>re\<in>set vpcPatterns. js_match l re \<noteq> None))"
    by code_simp
  have b1: "\<not> (\<exists>l\<in>set (split_nl (js_trim ''303  eth1/5  no encap'')). \<not> skipped l \<and> js_match l vlan_re \<noteq> None)"
    by code_simp
  have c1: "\<not> (\<exists>l\<in>set (split_nl (js_trim ''vlan-713 only'')).
              \<not> skipped l \<and> (js_match l nodeInterface_re \<noteq> None
              \<or> (\<exists>re\<in>set vpcPatterns. js_match l re \<noteq> None)))"
    by code_simp
  from parseEndpointOutput_null_iff [of ?a] a1 a2
    parseEndpointOutput_null_iff [of "''303  eth1/5  no encap''"] b1
    parseEndpointOutput_null_iff [of "''vlan-713 only''"] c1
  show ?thesis by blast
qed

lemma js_trim_empty_iff: "js_trim l = [] \<longleftrightarrow> (\<forall>c\<in>set l. isWhiteSpace c)"
proof
  assume "js_trim l = []"
  then have "\<forall>c\<in>set (dropWhile isWhiteSpace l). isWhiteSpace c"
    by (simp add: js_trim_def)
  then have "dropWhile isWhiteSpace l = []"
    by (metis hd_dropWhile list.set_sel(1))
  then show "\<forall>c\<in>set l. isWhiteSpace c"
    by simp
next
  assume "\<forall>c\<in>set l. isWhiteSpace c"
  then have "dropWhile isWhiteSpace l = []" by simp
  then have "js_trim l = rev (dropWhile isWhiteSpace (rev []))"
    by (simp only: js_trim_def)
  then show "js_trim l = []" by simp
qed

text \<open>C5, as the code has it. Every line of white space only, and every line that contains
  both \<^verbatim>\<open>Node\<close> and \<^verbatim>\<open>Interface\<close> as substrings, in this spelling, is skipped:
  it leaves the variables of the loop as they are, and the result of the parse is the result
  for the other lines.\<close>

theorem skipped_lines_contribute_nothing:
  assumes "(\<forall>c\<in>set l. isWhiteSpace c) \<or> (js_includes l ''Node'' \<and> js_includes l ''Interface'')"
  shows "endpoint_line l v = v \<and>
         endpoint_lines (pre @ l # post) = endpoint_lines (pre @ post) \<and>
         (split_nl (js_trim input) = pre @ l # post \<longrightarrow>
            parseEndpointOutput input = endpoint_result (endpoint_lines (pre @ post)))"
proof -
  from assms have sk: "skipped l"
    by (auto simp: skipped_def js_trim_empty_iff)
  then have "endpoint_line l = id"
    by (simp add: fun_eq_iff endpoint_line_skipped)
  then show ?thesis
    using sk by (simp add: endpoint_lines_def parseEndpointOutput_def endpoint_line_skipped)
qed

theorem skipped_lines_contribute_nothing_witness:
  "js_includes ''Node  Interface  vlan-713  425-426-VPC-31-32-PG'' ''Node'' \<and>
   js_includes ''Node  Interface  vlan-713  425-426-VPC-31-32-PG'' ''Interface'' \<and>
   endpoint_line ''Node  Interface  vlan-713  425-426-VPC-31-32-PG'' endpoint_init = endpoint_init \<and>
   parseEndpointOutput ''303  eth1/5  vlan-5\<newline>Node  Interface  vlan-713  425-426-VPC-31-32-PG''
     = endpoint_result (endpoint_lines ([''303  eth1/5  vlan-5''] @ []))"
proof -
  let ?h = "''Node  Interface  vlan-713  425-426-VPC-31-32-PG''"
  have a: "js_includes ?h ''Node''" by code_simp
  have b: "js_includes ?h ''Interface''" by code_simp
  have s: "split_nl (js_trim ''303  eth1/5  vlan-5\<newline>Node  Interface  vlan-713  425-426-VPC-31-32-PG'')
             = [''303  eth1/5  vlan-5''] @ ?h # []"
    by code_simp
  from a b have h: "(\<forall>c\<in>set ?h. isWhiteSpace c) \<or> (js_includes ?h ''Node'' \<and> js_includes ?h ''Interface'')"
    by blast
  from skipped_lines_contribute_nothing [OF h, of endpoint_init "[''303  eth1/5  vlan-5'']" "[]"
      "''303  eth1/5  vlan-5\<newline>Node  Interface  vlan-713  425-426-VPC-31-32-PG''"] a b s
  show ?thesis by blast
qed

text \<open>C5 as stated fails: the test of the source is \<^verbatim>\<open>line.includes('Node') &&
  line.includes('Interface')\<close>, which is case-sensitive. A line with \<^verbatim>\<open>node\<close> and
  \<^verbatim>\<open>interface\<close> in lower case is processed, and here it gives the VLAN and the path of
  the record.\<close>

theorem header_case_counterexample:
  "header_spec ''node interface 303  eth1/5  vlan-713'' \<and>
   endpoint_line ''node interface 303  eth1/5  vlan-713'' endpoint_init \<noteq> endpoint_init \<and>
   parseEndpointOutput ''node interface 303  eth1/5  vlan-713'' =
     Some \<lparr>EndpointData.vlan = ''713'', ip = [], paths = [''eth1/5''], pod = [],
           pathsWithNodes = Some [(''eth1/5'', ''303'')], pathsWithIPs = Some []\<rparr>"
  by code_simp

section \<open>The attachment parser\<close>

text \<open>C7. The line of the specification gives one record, with VLAN 623, the path, pod-2 and
  the full path of the line.\<close>

theorem parseMoquery_vpc_roundtrip:
  "parseMoqueryOutput ''dn : uni/tn-T/ap-A/epg-EPG-VLAN623-x/rspathAtt-[topology/pod-2/protpaths-425-426/pathep-[425-426-VPC-31-32-PG]]''
     = [\<lparr>PathAttachment.vlan = ''623'', epg = ''EPG-VLAN623-x'', path = ''425-426-VPC-31-32-PG'',
         fullPath = ''pod-2/protpaths-425-426/pathep-[425-426-VPC-31-32-PG]'', pod = ''pod-2''\<rparr>]"
  by code_simp

lemma moquery_line_push: "moquery_line l acc = acc @ moquery_line l []"
  by (simp add: moquery_line_def Let_def split: option.splits prod.splits)

lemma fold_moquery: "fold moquery_line ls acc = acc @ concat (map (\<lambda>l. moquery_line l []) ls)"
proof (induction ls arbitrary: acc)
  case Nil
  then show ?case by simp
next
  case (Cons l ls)
  show ?case
    by (simp add: Cons.IH [of "moquery_line l acc"]) (metis append_assoc moquery_line_push)
qed

lemma moquery_lines_concat: "moquery_lines ls = concat (map (\<lambda>l. moquery_line l []) ls)"
  by (simp add: moquery_lines_def fold_moquery)

lemma moquery_line_unmatched:
  "js_match c dn_vpc_re = None \<Longrightarrow> js_match c dn_single_re = None \<Longrightarrow> moquery_line c acc = acc"
  by (simp add: moquery_line_def dn_match_def)

text \<open>C8. The lines are processed one by one: a line that matches neither the protpaths nor the
  paths pattern gives no record, and when one line of a blob is replaced by such a line, the
  records of the lines before and after it are the same, in the same order. The function is
  total, as \<^const>\<open>parseEndpointOutput\<close> is.\<close>

theorem moquery_lines_independent:
  assumes "split_nl (js_trim blob) = pre @ l # post"
    and "split_nl (js_trim blob') = pre @ c # post"
    and "js_match c dn_vpc_re = None" and "js_match c dn_single_re = None"
  shows "moquery_line c [] = [] \<and>
         parseMoqueryOutput blob = moquery_lines pre @ moquery_line l [] @ moquery_lines post \<and>
         parseMoqueryOutput blob' = moquery_lines pre @ moquery_lines post"
  using assms
  by (simp add: parseMoqueryOutput_def moquery_lines_concat moquery_line_unmatched)

theorem moquery_lines_independent_witness:
  "split_nl (js_trim (ex_vpc_line @ [CHR 0x0A] @ ''dn : uni/tn-T/broken'' @ [CHR 0x0A] @ ex_single_line))
     = [ex_vpc_line] @ ''dn : uni/tn-T/broken'' # [ex_single_line] \<and>
   parseMoqueryOutput (ex_vpc_line @ [CHR 0x0A] @ ''dn : uni/tn-T/broken'' @ [CHR 0x0A] @ ex_single_line)
     = moquery_lines [ex_vpc_line] @ moquery_lines [ex_single_line] \<and>
   parseMoqueryOutput (ex_vpc_line @ [CHR 0x0A] @ ex_vpc_line @ [CHR 0x0A] @ ex_single_line)
     = moquery_lines [ex_vpc_line] @ moquery_line ex_vpc_line [] @ moquery_lines [ex_single_line] \<and>
   length (moquery_lines [ex_vpc_line] @ moquery_lines [ex_single_line]) = 2"
proof -
  have a: "split_nl (js_trim (ex_vpc_line @ [CHR 0x0A] @ ex_vpc_line @ [CHR 0x0A] @ ex_single_line))
           = [ex_vpc_line] @ ex_vpc_line # [ex_single_line]"
    by code_simp
  have b: "split_nl (js_trim (ex_vpc_line @ [CHR 0x0A] @ ''dn : uni/tn-T/broken'' @ [CHR 0x0A] @ ex_single_line))
           = [ex_vpc_line] @ ''dn : uni/tn-T/broken'' # [ex_single_line]"
    by code_simp
  have c: "js_match ''dn : uni/tn-T/broken'' dn_vpc_re = None" by code_simp
  have d: "js_match ''dn : uni/tn-T/broken'' dn_single_re = None" by code_simp
  have e: "length (moquery_lines [ex_vpc_line] @ moquery_lines [ex_single_line]) = 2" by code_simp
  from moquery_lines_independent [OF a b c d] b e show ?thesis by simp
qed

section \<open>The rows of the export\<close>







text \<open>The test of the code implies that the full path contains the text
  \<^verbatim>\<open>protpaths-<n1>-<n2>\<close>; the converse fails.\<close>

lemma attProtpaths_match:
  assumes "js_match fp attProtpaths_re = Some m"
  shows "\<exists>pre post. fp = pre @ (''protpaths-'' @ capture m 1 @ ''-'' @ capture m 2) @ post"
proof -
  have pat: "pattern attProtpaths_re =
      Seq [Lit ''protpaths-'', Grp 1 (Rep cls_node 1 None), Lit ''-'', Grp 2 (Rep cls_node 1 None)]"
    "ignoreCase attProtpaths_re = False"
    by (simp_all add: attProtpaths_re_def rx_plus_def)
  from assms obtain pre t post caps' prev0 prev' where
    fp: "fp = pre @ t @ post" and m: "m = caps'(0 \<mapsto> t)"
    and r: "(t, prev', post, caps') \<in> set (rmatch (ignoreCase attProtpaths_re)
              (pattern attProtpaths_re) (prev0, t @ post, Map.empty))"
    by (rule js_match_sound)
  from r obtain t1 st1 u1 where
    a1: "(t1, st1) \<in> set (rmatch False (Lit ''protpaths-'') (prev0, t @ post, Map.empty))"
    and r1: "(u1, prev', post, caps') \<in> set (rmatch False
               (Seq [Grp 1 (Rep cls_node 1 None), Lit ''-'', Grp 2 (Rep cls_node 1 None)]) st1)"
    and e1: "t = t1 @ u1"
    unfolding pat rmatch_Seq_Cons by blast
  from r1 obtain t2 st2 u2 where
    a2: "(t2, st2) \<in> set (rmatch False (Grp 1 (Rep cls_node 1 None)) st1)"
    and r2: "(u2, prev', post, caps') \<in> set (rmatch False
               (Seq [Lit ''-'', Grp 2 (Rep cls_node 1 None)]) st2)"
    and e2: "u1 = t2 @ u2"
    unfolding rmatch_Seq_Cons by blast
  from r2 obtain t3 st3 u3 where
    a3: "(t3, st3) \<in> set (rmatch False (Lit ''-'') st2)"
    and r3: "(u3, prev', post, caps') \<in> set (rmatch False (Seq [Grp 2 (Rep cls_node 1 None)]) st3)"
    and e3: "u2 = t3 @ u3"
    unfolding rmatch_Seq_Cons by blast
  from r3 have a4: "(u3, prev', post, caps') \<in> set (rmatch False (Grp 2 (Rep cls_node 1 None)) st3)"
    unfolding rmatch_Seq_Cons rmatch_Seq_Nil by auto
  from rmatch_Lit_exact [OF a1] have b1: "t1 = ''protpaths-''" "snd (snd st1) = Map.empty" by auto
  from rmatch_Grp_Rep [OF a2] b1 have b2: "snd (snd st2) = [1 \<mapsto> t2]" by simp
  from rmatch_Lit_exact [OF a3] b2 have b3: "t3 = ''-''" "snd (snd st3) = [1 \<mapsto> t2]" by auto
  from rmatch_Grp_Rep [OF a4] b3 have b4: "caps' = [1 \<mapsto> t2, 2 \<mapsto> u3]" by simp
  from m b4 have "capture m 1 = t2" "capture m 2 = u3" by (simp_all add: capture_def)
  with e1 e2 e3 b1 b3 have "t = ''protpaths-'' @ capture m 1 @ ''-'' @ capture m 2" by simp
  with fp show ?thesis by blast
qed

lemma vpc_nodes_match_contains:
  "vpc_nodes_match n1 n2 a \<Longrightarrow> js_includes (fullPath a) (''protpaths-'' @ n1 @ ''-'' @ n2)"
proof -
  assume "vpc_nodes_match n1 n2 a"
  then obtain m where "js_match (fullPath a) attProtpaths_re = Some m"
    and "capture m 1 = n1" and "capture m 2 = n2"
    by (auto simp: vpc_nodes_match_def split: option.splits)
  with attProtpaths_match [of "fullPath a" m] show ?thesis
    unfolding js_includes_iff by blast
qed

text \<open>An attachment of the node pair 425 and 4267, as the attachment parser gives it.\<close>

lemma ex_vpc_attachment_parsed:
  "parseMoqueryOutput ''dn : uni/tn-T/ap-A/epg-EPG-VLAN999-x/rspathAtt-[topology/pod-3/protpaths-425-4267/pathep-[425-4267-VPC-31-32-PG]]''
     = [ex_vpc_attachment]"
  by code_simp


text \<open>C2 requires that \<^const>\<open>generateCSV\<close> and the loop of \<^verbatim>\<open>handleExportAllCSV\<close>
  give the same rows for the same denied results, VLAN, EPG label and attachments. The code
  does not: for a denied path that no attachment explains, \<^const>\<open>generateCSV\<close> falls back
  to \<^verbatim>\<open>pod-1\<close> and the loop of \<^verbatim>\<open>handleExportAllCSV\<close> to \<^verbatim>\<open>pod-2\<close>. The
  input is one the application reaches: the attachments are parsed from a line for VLAN 623,
  the endpoint is on VLAN 713.\<close>

theorem export_routines_differ:
  "validateVlanAllowances ex_export_endpoint (parseMoqueryOutput ex_vpc_line) = [denied ''eth1/5''] \<and>
   ex_entry = \<lparr>entry_id = ''1'', endpointInput = ''303  eth1/5  vlan-713'',
     epgName = ''EPG-VLAN713-x'', results = Some [denied ''eth1/5''],
     endpointData = Some ex_export_endpoint\<rparr> \<and>
   generateCSV ''713'' ''EPG-VLAN713-x'' [denied ''eth1/5''] ex_export_endpoint
       (parseMoqueryOutput ex_vpc_line)
     = ''VLAN,EPG,PATH\<newline>713,EPG-VLAN713-x,pod-1/paths-XXX/pathep-[eth1/5]'' \<and>
   handleExportAllCSV [ex_entry] (parseMoqueryOutput ex_vpc_line)
     = Inr ''VLAN,EPG,PATH\<newline>713,EPG-VLAN713-x,pod-2/paths-XXX/pathep-[eth1/5]'' \<and>
   csv_rows ''713'' ''EPG-VLAN713-x'' [denied ''eth1/5''] (parseMoqueryOutput ex_vpc_line)
     \<noteq> entry_rows (parseMoqueryOutput ex_vpc_line) ex_entry"
  by code_simp

text \<open>The two routines differ also where no default is used: when the denied path is attached
  under another VLAN, \<^const>\<open>generateCSV\<close> reuses the full path of the attachment, and the
  loop of \<^verbatim>\<open>handleExportAllCSV\<close> takes its pod only and rebuilds the rest from the path
  name.\<close>

lemma export_routines_differ_on_exact_match:
  "validateVlanAllowances ex_export_endpoint (parseMoqueryOutput ex_single_line) = [denied ''eth1/5''] \<and>
   csv_rows ''713'' ''EPG-VLAN713-x'' [denied ''eth1/5''] (parseMoqueryOutput ex_single_line)
     = [''713,EPG-VLAN713-x,pod-1/paths-303/pathep-[eth1/5]''] \<and>
   entry_rows (parseMoqueryOutput ex_single_line) ex_entry
     = [''713,EPG-VLAN713-x,pod-1/paths-XXX/pathep-[eth1/5]'']"
  by code_simp

end
